theory Spec2Isabelle
  imports Main "HOL-Library.Char_ord" "HOL-Library.List_Lexorder" "HOL-Library.Sublist"
begin

unbundle bit_operations_syntax

section \<open>Entry (the entry module)\<close>

text \<open>
  A JavaScript string is modelled as \<^typ>\<open>string\<close>, a list of character codes. The
  comparison \<^verbatim>\<open><\<close> of two JavaScript strings is lexicographic on the code units, a
  proper prefix being smaller: that is the lexicographic order on lists over the order of
  the character codes.

  The constructor stores the \<open>size\<close> (here \<open>size_bytes\<close>) and the \<open>mtime\<close> it is
  given, whatever they are. A caller that leaves one out stores \<^verbatim>\<open>undefined\<close>, and
  \<^verbatim>\<open>NaN\<close> is a number that is not equal to itself, so a value of these fields is a
  \<open>jsval\<close>: \<^verbatim>\<open>undefined\<close>, a number with an integer value (for \<open>mtime\<close> also a
  date with that time in milliseconds), or a value whose numeric coercion is \<^verbatim>\<open>NaN\<close>
  (\<^verbatim>\<open>NaN\<close> itself, an invalid date). \<open>strict_eq\<close> is \<^verbatim>\<open>===\<close> on these values
  and \<open>to_number\<close> the unary \<^verbatim>\<open>+\<close>. The \<open>mode\<close> is set by the constructor to one of
  two integers. A checksum that was never given is \<open>None\<close>.
\<close>

datatype jsval = Undefined | Number int | NaN

definition strict_eq :: "jsval \<Rightarrow> jsval \<Rightarrow> bool" where
  "strict_eq a b = (a \<noteq> NaN \<and> a = b)"

definition to_number :: "jsval \<Rightarrow> jsval" where
  "to_number v = (case v of Undefined \<Rightarrow> NaN | Number n \<Rightarrow> Number n | NaN \<Rightarrow> NaN)"

record entry =
  relativePath :: string
  mode :: int
  size_bytes :: jsval
  mtime :: jsval
  checksum :: "string option"

definition DIRECTORY_MODE :: int where
  "DIRECTORY_MODE = 16877"

text \<open>The constructor: the mode is derived once, from the last character of the path.\<close>

definition Entry :: "string \<Rightarrow> jsval \<Rightarrow> jsval \<Rightarrow> string option \<Rightarrow> entry" where
  "Entry path sz mt cs =
     (let isDir = (path \<noteq> [] \<and> last path = CHR ''/'') in
      \<lparr>relativePath = path,
       mode = (if isDir then DIRECTORY_MODE else 0),
       size_bytes = sz,
       mtime = mt,
       checksum = cs\<rparr>)"

text \<open>
  \<^verbatim>\<open>(entry.mode & 61440) === 16384\<close>. The JavaScript operator works on the low 32 bits
  of the mode; the mask selects bits 12 to 15, so the test on the integer is the same.
\<close>

definition isDirectory :: "entry \<Rightarrow> bool" where
  "isDirectory e = ((mode e AND 61440) = 16384)"

definition isFile :: "entry \<Rightarrow> bool" where
  "isFile e = (\<not> isDirectory e)"

section \<open>The patch calculator\<close>

text \<open>A command is the triple \<^verbatim>\<open>[operation, relativePath, entry]\<close>.\<close>

type_synonym command = "string \<times> string \<times> entry"

definition addCommand :: "entry \<Rightarrow> command" where
  "addCommand e = (if isDirectory e then ''mkdir'' else ''create'', relativePath e, e)"

definition removeCommand :: "entry \<Rightarrow> command" where
  "removeCommand e = (if isDirectory e then ''rmdir'' else ''unlink'', relativePath e, e)"

definition updateCommand :: "entry \<Rightarrow> command" where
  "updateCommand e = (''change'', relativePath e, e)"

definition defaultIsEqual :: "entry \<Rightarrow> entry \<Rightarrow> bool" where
  "defaultIsEqual entryA entryB =
     (if isDirectory entryA \<and> isDirectory entryB then True
      else (strict_eq (size_bytes entryA) (size_bytes entryB) \<and>
            strict_eq (to_number (mtime entryA)) (to_number (mtime entryB)) \<and>
            mode entryA = mode entryB))"

text \<open>
  The second argument of \<^verbatim>\<open>calculatePatch\<close> as the function sees it: not passed at all
  (\<^verbatim>\<open>arguments.length\<close> is 1), passed and a function, or passed and anything else
  (\<^verbatim>\<open>undefined\<close> included).
\<close>

datatype isEqual_arg =
    Omitted
  | IsFunction "entry \<Rightarrow> entry \<Rightarrow> bool"
  | NotFunction

datatype error =
    Error string
  | TypeError string
  | TypeErrorNullish string
  | FsError string

text \<open>
  \<open>Error\<close> and \<open>TypeError\<close> carry the message the source gives them.
  \<open>TypeErrorNullish p\<close> is the type error the engine raises when property \<open>p\<close> of
  \<^verbatim>\<open>null\<close> or \<^verbatim>\<open>undefined\<close> is read or written. \<open>FsError\<close> is an error
  thrown by a call of the \<^verbatim>\<open>fs\<close> module, which no function of the source catches.
\<close>

text \<open>
  The \<^verbatim>\<open>while\<close> loop of \<^verbatim>\<open>calculatePatch\<close>. The cursors \<open>i\<close> and \<open>j\<close> are the
  suffixes of \<open>ours\<close> and \<open>theirs\<close> still to be read; \<^verbatim>\<open>push\<close> appends. The loop
  ends when one suffix is empty and hands both on to the cleanup loops.
\<close>

fun merge_loop ::
  "(entry \<Rightarrow> entry \<Rightarrow> bool) \<Rightarrow> entry list \<Rightarrow> entry list \<Rightarrow> command list \<Rightarrow> command list
     \<Rightarrow> entry list \<times> entry list \<times> command list \<times> command list" where
  "merge_loop isEqual (x # xs) (y # ys) operations removals =
     (if relativePath x < relativePath y then
        (if isDirectory x
         then merge_loop isEqual xs (y # ys) operations (removals @ [removeCommand x])
         else merge_loop isEqual xs (y # ys) (operations @ [removeCommand x]) removals)
      else if relativePath x > relativePath y then
        merge_loop isEqual (x # xs) ys (operations @ [addCommand y]) removals
      else
        (if \<not> isEqual x y then
           (if isDirectory x
            then merge_loop isEqual xs ys operations (removals @ [updateCommand y])
            else merge_loop isEqual xs ys (operations @ [updateCommand y]) removals)
         else merge_loop isEqual xs ys operations removals))"
| "merge_loop isEqual [] ys operations removals = ([], ys, operations, removals)"
| "merge_loop isEqual xs [] operations removals = (xs, [], operations, removals)"

text \<open>
  The two \<^verbatim>\<open>for\<close> loops after it, "cleanup ours" and "cleanup theirs", and the
  function itself. \<open>ours\<close> and \<open>theirs\<close> are \<^verbatim>\<open>this.entries\<close> and
  \<^verbatim>\<open>otherFSTree.entries\<close>; the function only reads the entries, so it is given their
  values.
\<close>

fun cleanup_ours :: "entry list \<Rightarrow> command list \<Rightarrow> command list" where
  "cleanup_ours [] removals = removals"
| "cleanup_ours (x # xs) removals = cleanup_ours xs (removals @ [removeCommand x])"

fun cleanup_theirs :: "entry list \<Rightarrow> command list \<Rightarrow> command list" where
  "cleanup_theirs [] operations = operations"
| "cleanup_theirs (y # ys) operations = cleanup_theirs ys (operations @ [addCommand y])"

definition calculatePatch ::
  "entry list \<Rightarrow> entry list \<Rightarrow> isEqual_arg \<Rightarrow> error + command list" where
  "calculatePatch ours theirs arg =
     (case arg of
        NotFunction \<Rightarrow>
          Inl (TypeError (''calculatePatch'' @ [CHR 0x27] @ ''s second argument must be a function''))
      | _ \<Rightarrow>
          (let isEqual = (case arg of IsFunction f \<Rightarrow> f | _ \<Rightarrow> defaultIsEqual) in
           case merge_loop isEqual ours theirs [] [] of
             (ours_rest, theirs_rest, operations, removals) \<Rightarrow>
               Inr (cleanup_theirs theirs_rest operations @ rev (cleanup_ours ours_rest removals))))"

definition cmd_op :: "command \<Rightarrow> string" where
  "cmd_op c = fst c"

definition cmd_path :: "command \<Rightarrow> string" where
  "cmd_path c = fst (snd c)"

section \<open>The tree container\<close>

text \<open>
  Entries are objects: the container's array, its change records and other containers
  may hold the same instance, and \<^verbatim>\<open>writeFileSync\<close> assigns to a field of one. So an
  entry instance is a reference into a store; \<^verbatim>\<open>new Entry\<close> extends the store by one
  cell.
\<close>

type_synonym ref = nat

datatype lifecycle = STARTED | STOPPED

record fstree =
  entries :: "ref list"
  root :: string
  changes :: "(string \<times> string \<times> ref) list"
  relativePathToChange :: "string \<Rightarrow> nat option"
  state :: lifecycle

text \<open>
  The calls of the \<^verbatim>\<open>fs\<close> module, with their arguments (the \<^verbatim>\<open>options\<close> that
  \<^verbatim>\<open>writeFileSync\<close> hands through unread are left out).
\<close>

datatype io_call =
    Fs_unlinkSync string
  | Fs_rmdirSync string
  | Fs_mkdirSync string
  | Fs_writeFileSync string string
  | Fs_readFileSync string string

text \<open>
  What the source gets from outside: the file system, which answers a call, given the
  calls issued before it, by throwing (\<open>Inl\<close>, the message) or by returning (\<open>Inr\<close>,
  the content read; the other calls return nothing that is used); the digest function
  \<^verbatim>\<open>md5hex\<close>; and the reading of the clock, \<^verbatim>\<open>Date.now()\<close>.
\<close>

record env =
  fs :: "io_call list \<Rightarrow> io_call \<Rightarrow> string + string"
  md5hex :: "string \<Rightarrow> string"
  date_now :: int

text \<open>
  The state an operation of a container works on: the container itself (\<^verbatim>\<open>this\<close>),
  the store of entry instances, and the trace of the \<^verbatim>\<open>fs\<close> calls issued so far.
  An operation returns \<open>None\<close> when it returns and \<open>Some err\<close> when it throws,
  together with the state it leaves behind.
\<close>

record world =
  tree :: fstree
  heap :: "entry list"
  io :: "io_call list"

definition start :: "fstree \<Rightarrow> fstree" where
  "start t = t\<lparr>changes := [], relativePathToChange := Map.empty, state := STARTED\<rparr>"

definition stop :: "fstree \<Rightarrow> fstree" where
  "stop t = t\<lparr>state := STOPPED\<rparr>"

record find_result =
  entry :: "ref option"
  index :: int

fun find_from :: "entry list \<Rightarrow> ref list \<Rightarrow> string \<Rightarrow> int \<Rightarrow> find_result" where
  "find_from h [] path i = \<lparr>entry = None, index = - 1\<rparr>"
| "find_from h (r # rs) path i =
     (if relativePath (h ! r) = path then \<lparr>entry = Some r, index = i\<rparr>
      else find_from h rs path (i + 1))"

definition findByRelativePath :: "world \<Rightarrow> string \<Rightarrow> find_result" where
  "findByRelativePath w path = find_from (heap w) (entries (tree w)) path 0"

definition statSync :: "world \<Rightarrow> string \<Rightarrow> ref option" where
  "statSync w path = entry (findByRelativePath w path)"

definition throwIfStopped :: "string \<Rightarrow> world \<Rightarrow> error option" where
  "throwIfStopped operation w =
     (if state (tree w) = STOPPED then Some (Error (''NOPE, operation: '' @ operation))
      else None)"

definition fs_call :: "env \<Rightarrow> io_call \<Rightarrow> world \<Rightarrow> (string + string) \<times> world" where
  "fs_call env c w = (fs env (io w) c, w\<lparr>io := io w @ [c]\<rparr>)"

text \<open>
  \<^verbatim>\<open>_track\<close>. Its first statement reads \<^verbatim>\<open>entry.relativePath\<close>, which throws when
  the entry is \<^verbatim>\<open>null\<close>. \<^verbatim>\<open>push\<close> returns the new length, so the position stored
  is the old one.
\<close>

fun track :: "string \<Rightarrow> ref option \<Rightarrow> world \<Rightarrow> error + world" where
  "track operation None w = Inl (TypeErrorNullish ''relativePath'')"
| "track operation (Some r) w =
     (let t = tree w; path = relativePath (heap w ! r) in
      case relativePathToChange t path of
        None \<Rightarrow>
          Inr (w\<lparr>tree := t\<lparr>changes := changes t @ [(operation, path, r)],
                           relativePathToChange :=
                             (relativePathToChange t)(path \<mapsto> length (changes t))\<rparr>\<rparr>)
      | Some position \<Rightarrow>
          (if position < length (changes t)
           then Inr (w\<lparr>tree := t\<lparr>changes :=
                  (changes t)[position := (operation, fst (snd (changes t ! position)), r)]\<rparr>\<rparr>)
           else Inl (TypeErrorNullish ''0'')))"

text \<open>
  \<^verbatim>\<open>_insertAt\<close>. The loop of its second branch walks the array from the front; it
  returns from inside the loop after a replacement or a \<^verbatim>\<open>splice\<close>, and pushes when
  it runs off the end. The value \<^verbatim>\<open>_insertAt\<close> returns is not used by any caller.
  The callers reach it only after \<^verbatim>\<open>_track\<close> has returned, so with an entry that is
  not \<^verbatim>\<open>null\<close>, and with a result of \<^verbatim>\<open>findByRelativePath\<close>, whose index is an
  index of the array when it is not \<open>-1\<close>.
\<close>

fun insert_scan :: "entry list \<Rightarrow> ref \<Rightarrow> ref list \<Rightarrow> ref list" where
  "insert_scan h e [] = [e]"
| "insert_scan h e (current # rest) =
     (if relativePath (h ! current) = relativePath (h ! e) then e # rest
      else if relativePath (h ! current) < relativePath (h ! e) then e # current # rest
      else current # insert_scan h e rest)"

definition insertAt :: "find_result \<Rightarrow> ref \<Rightarrow> world \<Rightarrow> world" where
  "insertAt result e w =
     (let t = tree w in
      if index result > - 1
      then w\<lparr>tree := t\<lparr>entries := (entries t)[nat (index result) := e]\<rparr>\<rparr>
      else w\<lparr>tree := t\<lparr>entries := insert_scan (heap w) e (entries t)\<rparr>\<rparr>)"

definition full_path :: "world \<Rightarrow> string \<Rightarrow> string" where
  "full_path w path = root (tree w) @ ''/'' @ path"

text \<open>
  The three operations that look an entry up, call \<^verbatim>\<open>fs\<close>, track the entry found and
  write it back.
\<close>

definition unlinkSync :: "env \<Rightarrow> string \<Rightarrow> world \<Rightarrow> error option \<times> world" where
  "unlinkSync env path w =
     (case throwIfStopped ''unlink'' w of
        Some err \<Rightarrow> (Some err, w)
      | None \<Rightarrow>
          (let result = findByRelativePath w path in
           case fs_call env (Fs_unlinkSync (full_path w path)) w of
             (Inl msg, w1) \<Rightarrow> (Some (FsError msg), w1)
           | (Inr _, w1) \<Rightarrow>
               (case track ''unlink'' (entry result) w1 of
                  Inl err \<Rightarrow> (Some err, w1)
                | Inr w2 \<Rightarrow> (None, insertAt result (the (entry result)) w2))))"

definition rmdirSync :: "env \<Rightarrow> string \<Rightarrow> world \<Rightarrow> error option \<times> world" where
  "rmdirSync env path w =
     (case throwIfStopped ''rmdir'' w of
        Some err \<Rightarrow> (Some err, w)
      | None \<Rightarrow>
          (let result = findByRelativePath w path in
           case fs_call env (Fs_rmdirSync (full_path w path)) w of
             (Inl msg, w1) \<Rightarrow> (Some (FsError msg), w1)
           | (Inr _, w1) \<Rightarrow>
               (case track ''rmdir'' (entry result) w1 of
                  Inl err \<Rightarrow> (Some err, w1)
                | Inr w2 \<Rightarrow> (None, insertAt result (the (entry result)) w2))))"

definition mkdirSync :: "env \<Rightarrow> string \<Rightarrow> world \<Rightarrow> error option \<times> world" where
  "mkdirSync env path w =
     (case throwIfStopped ''mkdir'' w of
        Some err \<Rightarrow> (Some err, w)
      | None \<Rightarrow>
          (let result = findByRelativePath w path in
           case fs_call env (Fs_mkdirSync (full_path w path)) w of
             (Inl msg, w1) \<Rightarrow> (Some (FsError msg), w1)
           | (Inr _, w1) \<Rightarrow>
               (case track ''mkdir'' (entry result) w1 of
                  Inl err \<Rightarrow> (Some err, w1)
                | Inr w2 \<Rightarrow> (None, insertAt result (the (entry result)) w2))))"

text \<open>
  \<^verbatim>\<open>writeFileSync\<close>. \<open>falsy\<close> is \<^verbatim>\<open>!entry.checksum\<close>: no checksum, or the empty
  string. \<open>write_through\<close> is the part of the function after the \<^verbatim>\<open>if (entry)\<close>
  block: the write, the new instance, the change record and the insertion. The content
  is a string, so \<^verbatim>\<open>'' + content\<close> is the content and \<^verbatim>\<open>content.length\<close> its length.
\<close>

definition falsy :: "string option \<Rightarrow> bool" where
  "falsy c = (c = None \<or> c = Some [])"

definition new_Entry :: "entry \<Rightarrow> world \<Rightarrow> ref \<times> world" where
  "new_Entry e w = (length (heap w), w\<lparr>heap := heap w @ [e]\<rparr>)"

definition write_through ::
  "env \<Rightarrow> string \<Rightarrow> string \<Rightarrow> string \<Rightarrow> find_result \<Rightarrow> world \<Rightarrow> error option \<times> world" where
  "write_through env path content digest result w =
     (case fs_call env (Fs_writeFileSync (full_path w path) content) w of
        (Inl msg, w1) \<Rightarrow> (Some (FsError msg), w1)
      | (Inr _, w1) \<Rightarrow>
          (case new_Entry (Entry path (Number (int (length content))) (Number (date_now env)) (Some digest)) w1 of
             (e, w2) \<Rightarrow>
               (let operation = (if entry result \<noteq> None then ''change'' else ''create'') in
                case track operation (Some e) w2 of
                  Inl err \<Rightarrow> (Some err, w2)
                | Inr w3 \<Rightarrow> (None, insertAt result e w3))))"

definition writeFileSync :: "env \<Rightarrow> string \<Rightarrow> string \<Rightarrow> world \<Rightarrow> error option \<times> world" where
  "writeFileSync env path content w =
     (case throwIfStopped ''writeFile'' w of
        Some err \<Rightarrow> (Some err, w)
      | None \<Rightarrow>
          (let result = findByRelativePath w path;
               digest = md5hex env content
           in case entry result of
                None \<Rightarrow> write_through env path content digest result w
              | Some r \<Rightarrow>
                  (if falsy (checksum (heap w ! r)) then
                     (case fs_call env (Fs_readFileSync (full_path w path) ''UTF8'') w of
                        (Inl msg, w1) \<Rightarrow> (Some (FsError msg), w1)
                      | (Inr data, w1) \<Rightarrow>
                          (let w2 = w1\<lparr>heap :=
                                 (heap w1)[r := (heap w1 ! r)\<lparr>checksum := Some (md5hex env data)\<rparr>]\<rparr>
                           in if checksum (heap w2 ! r) = Some digest then (None, w2)
                              else write_through env path content digest result w2))
                   else if checksum (heap w ! r) = Some digest then (None, w)
                   else write_through env path content digest result w)))"

text \<open>The paths of a container's entries, in the order of the array.\<close>

definition entry_paths :: "world \<Rightarrow> string list" where
  "entry_paths w = map (\<lambda>r. relativePath (heap w ! r)) (entries (tree w))"

section \<open>The drain as the specification words it\<close>

text \<open>
  The specification describes the drain of the leftover entries of \<open>ours\<close> as the main
  loop treats a removal: a directory is deferred into the removals buffer, a file is
  appended to the operations. \<open>spec_drain_ours\<close> and \<open>spec_calculatePatch\<close> follow
  these words, to be compared with \<open>cleanup_ours\<close> and \<open>calculatePatch\<close>, which follow
  the source.
\<close>

fun spec_drain_ours ::
  "entry list \<Rightarrow> command list \<Rightarrow> command list \<Rightarrow> command list \<times> command list" where
  "spec_drain_ours [] operations removals = (operations, removals)"
| "spec_drain_ours (x # xs) operations removals =
     (if isDirectory x
      then spec_drain_ours xs operations (removals @ [removeCommand x])
      else spec_drain_ours xs (operations @ [removeCommand x]) removals)"

definition spec_calculatePatch ::
  "entry list \<Rightarrow> entry list \<Rightarrow> isEqual_arg \<Rightarrow> error + command list" where
  "spec_calculatePatch ours theirs arg =
     (case arg of
        NotFunction \<Rightarrow>
          Inl (TypeError (''calculatePatch'' @ [CHR 0x27] @ ''s second argument must be a function''))
      | _ \<Rightarrow>
          (let isEqual = (case arg of IsFunction f \<Rightarrow> f | _ \<Rightarrow> defaultIsEqual) in
           case merge_loop isEqual ours theirs [] [] of
             (ours_rest, theirs_rest, operations, removals) \<Rightarrow>
               (case spec_drain_ours ours_rest operations removals of
                  (operations', removals') \<Rightarrow>
                    Inr (cleanup_theirs theirs_rest operations' @ rev removals'))))"

section \<open>Concrete inputs\<close>

text \<open>
  A file system on which every call returns (a read returns the content \<open>data\<close>), the
  identity as a stand-in for the digest, and the clock at 0.
\<close>

definition env_ok :: "string \<Rightarrow> env" where
  "env_ok data = \<lparr>fs = (\<lambda>trace c. Inr data), md5hex = (\<lambda>s. s), date_now = 0\<rparr>"

text \<open>
  The container that \<^verbatim>\<open>FSTree.fromPaths(['a'])\<close> builds, with root \<open>r\<close>: one file entry
  of size 0 and time 0 without a checksum, no changes, started.
\<close>

definition tree_a :: world where
  "tree_a =
     \<lparr>tree = \<lparr>entries = [0], root = ''r'', changes = [],
              relativePathToChange = Map.empty, state = STARTED\<rparr>,
      heap = [Entry ''a'' (Number 0) (Number 0) None],
      io = []\<rparr>"

text \<open>The same container whose entry already has the checksum \<open>x\<close>.\<close>

definition tree_a_sum :: world where
  "tree_a_sum = tree_a\<lparr>heap := [Entry ''a'' (Number 0) (Number 0) (Some ''x'')]\<rparr>"

text \<open>
  A file system on which a call that repeats an earlier call throws \<open>EEXIST\<close> and every
  other call returns: a directory cannot be made twice.
\<close>

definition env_eexist :: env where
  "env_eexist =
     \<lparr>fs = (\<lambda>trace c. if c \<in> set trace then Inl ''EEXIST'' else Inr []),
      md5hex = (\<lambda>s. s),
      date_now = 0\<rparr>"

section \<open>Lemmas on the patch calculator\<close>

lemma cleanup_ours_eq: "cleanup_ours xs removals = removals @ map removeCommand xs"
  by (induction xs arbitrary: removals) auto

lemma cleanup_theirs_eq: "cleanup_theirs ys operations = operations @ map addCommand ys"
  by (induction ys arbitrary: operations) auto

lemma merge_loop_exhausted:
  "merge_loop f xs ys ops rems = (xs', ys', ops', rems') \<Longrightarrow> xs' = [] \<or> ys' = []"
  by (induction f xs ys ops rems rule: merge_loop.induct) (auto split: if_splits)

lemma defaultIsEqual_self:
  "defaultIsEqual e e = (isDirectory e \<or> size_bytes e \<noteq> NaN \<and> to_number (mtime e) \<noteq> NaN)"
  by (auto simp: defaultIsEqual_def strict_eq_def)

lemma merge_loop_same:
  "\<forall>e\<in>set xs. defaultIsEqual e e \<Longrightarrow>
   merge_loop defaultIsEqual xs xs ops rems = ([], [], ops, rems)"
  by (induction xs) auto

lemma strict_prefix_less: "strict_prefix xs ys \<Longrightarrow> xs < (ys :: 'a :: linorder list)"
proof (induction xs arbitrary: ys)
  case Nil
  then show ?case by (cases ys) auto
next
  case (Cons x xs)
  then show ?case by (cases ys) auto
qed

lemma merge_loop_removals_sorted:
  "sorted_wrt (<) (map cmd_path rems @ map relativePath xs) \<Longrightarrow>
   merge_loop f xs ys ops rems = (xs', ys', ops', rems') \<Longrightarrow>
   sorted_wrt (<) (map cmd_path rems' @ map relativePath xs')"
proof (induction f xs ys ops rems rule: merge_loop.induct)
  case (1 isEqual x xs y ys operations removals)
  then show ?case
    by (auto simp: sorted_wrt_append cmd_path_def removeCommand_def updateCommand_def split: if_splits)
qed auto

lemma merge_loop_no_rmdir:
  "merge_loop f xs ys ops rems = (xs', ys', ops', rems') \<Longrightarrow>
   c \<in> set ops' \<Longrightarrow> c \<in> set ops \<or> cmd_op c \<noteq> ''rmdir''"
  by (induction f xs ys ops rems rule: merge_loop.induct)
     (auto simp: cmd_op_def removeCommand_def updateCommand_def addCommand_def split: if_splits)

lemma not_change [simp]:
  "cmd_op (removeCommand x) \<noteq> ''change''" "cmd_op (addCommand x) \<noteq> ''change''"
  by (simp_all add: cmd_op_def removeCommand_def addCommand_def)

lemma merge_loop_change:
  "merge_loop f xs ys ops rems = (xs', ys', ops', rems') \<Longrightarrow>
   c \<in> set ops' \<union> set rems' \<Longrightarrow> cmd_op c = ''change'' \<Longrightarrow>
   c \<in> set ops \<union> set rems \<or>
   (\<exists>x y. x \<in> set xs \<and> y \<in> set ys \<and> relativePath x = relativePath y \<and> \<not> f x y \<and> c = updateCommand y)"
proof (induction f xs ys ops rems rule: merge_loop.induct)
  case (1 isEqual x xs y ys operations removals)
  let ?P = "\<lambda>xs ys. \<exists>x y. x \<in> set xs \<and> y \<in> set ys \<and> relativePath x = relativePath y \<and> \<not> isEqual x y \<and> c = updateCommand y"
  have mono: "\<And>as bs. ?P as bs \<Longrightarrow> set as \<subseteq> set (x # xs) \<Longrightarrow> set bs \<subseteq> set (y # ys) \<Longrightarrow> ?P (x # xs) (y # ys)"
    by blast
  consider (lt) "relativePath x < relativePath y"
    | (gt) "\<not> relativePath x < relativePath y" "relativePath y < relativePath x"
    | (eq) "\<not> relativePath x < relativePath y" "\<not> relativePath y < relativePath x"
    by blast
  then show ?case
  proof cases
    case lt
    show ?thesis
    proof (cases "isDirectory x")
      case True
      with lt 1 have "c \<in> set operations \<union> set (removals @ [removeCommand x]) \<or> ?P xs (y # ys)"
        by simp
      with "1.prems"(3) mono[of xs "y # ys"] show ?thesis by auto
    next
      case False
      with lt 1 have "c \<in> set (operations @ [removeCommand x]) \<union> set removals \<or> ?P xs (y # ys)"
        by simp
      with "1.prems"(3) mono[of xs "y # ys"] show ?thesis by auto
    qed
  next
    case gt
    with 1 have "c \<in> set (operations @ [addCommand y]) \<union> set removals \<or> ?P (x # xs) ys"
      by simp
    with "1.prems"(3) mono[of "x # xs" ys] show ?thesis by auto
  next
    case eq
    then have peq: "relativePath x = relativePath y" by simp
    show ?thesis
    proof (cases "isEqual x y")
      case True
      with eq 1 have "c \<in> set operations \<union> set removals \<or> ?P xs ys" by simp
      with mono[of xs ys] show ?thesis by auto
    next
      case ne: False
      have here: "?P [x] [y]" if "c = updateCommand y" using that peq ne by simp
      show ?thesis
      proof (cases "isDirectory x")
        case True
        with eq ne 1 have "c \<in> set operations \<union> set (removals @ [updateCommand y]) \<or> ?P xs ys"
          by simp
        with mono[of xs ys] mono[of "[x]" "[y]"] here show ?thesis by auto
      next
        case False
        with eq ne 1 have "c \<in> set (operations @ [updateCommand y]) \<union> set removals \<or> ?P xs ys"
          by simp
        with mono[of xs ys] mono[of "[x]" "[y]"] here show ?thesis by auto
      qed
    qed
  qed
qed auto

lemma rmdir_after:
  assumes R: "sorted_wrt (<) (map cmd_path Rs)"
      and O: "\<forall>c\<in>set Ops. cmd_op c \<noteq> ''rmdir''"
      and i: "i < length (Ops @ rev Rs)" and j: "j < length (Ops @ rev Rs)"
      and dj: "cmd_op ((Ops @ rev Rs) ! j) = ''rmdir''"
      and pre: "strict_prefix (cmd_path ((Ops @ rev Rs) ! j)) (cmd_path ((Ops @ rev Rs) ! i))"
  shows "i < j"
proof (rule ccontr)
  assume "\<not> i < j"
  then have ji: "j \<le> i" by simp
  have jO: "length Ops \<le> j"
  proof (rule ccontr)
    assume "\<not> length Ops \<le> j"
    then have "(Ops @ rev Rs) ! j \<in> set Ops" by (simp add: nth_append)
    with O dj show False by blast
  qed
  define a where "a = length Rs - Suc (j - length Ops)"
  define b where "b = length Rs - Suc (i - length Ops)"
  have ej: "(Ops @ rev Rs) ! j = Rs ! a" using jO j by (simp add: nth_append rev_nth a_def)
  have ei: "(Ops @ rev Rs) ! i = Rs ! b" using jO ji i by (simp add: nth_append rev_nth b_def)
  have ba: "b \<le> a" and al: "a < length Rs" using jO ji i j by (auto simp: a_def b_def)
  have "cmd_path (Rs ! b) \<le> cmd_path (Rs ! a)"
  proof (cases "b = a")
    case True then show ?thesis by simp
  next
    case False
    with ba have "b < a" by simp
    with R al have "map cmd_path Rs ! b < map cmd_path Rs ! a"
      by (simp only: sorted_wrt_iff_nth_less length_map)
    with al \<open>b < a\<close> show ?thesis by simp
  qed
  moreover have "cmd_path (Rs ! a) < cmd_path (Rs ! b)"
    using pre ej ei by (simp add: strict_prefix_less)
  ultimately show False by simp
qed

lemma calculatePatch_shape:
  assumes "arg = IsFunction f \<or> arg = Omitted \<and> f = defaultIsEqual"
      and "merge_loop f ours theirs [] [] = (ours_rest, theirs_rest, operations, removals)"
  shows "calculatePatch ours theirs arg =
           Inr ((operations @ map addCommand theirs_rest) @ rev (removals @ map removeCommand ours_rest))"
  using assms by (auto simp: calculatePatch_def cleanup_ours_eq cleanup_theirs_eq)

lemma calculatePatch_Inr:
  assumes "calculatePatch ours theirs arg = Inr out"
  obtains f ours_rest theirs_rest operations removals where
    "arg = IsFunction f \<or> arg = Omitted \<and> f = defaultIsEqual"
    "merge_loop f ours theirs [] [] = (ours_rest, theirs_rest, operations, removals)"
    "out = (operations @ map addCommand theirs_rest) @ rev (removals @ map removeCommand ours_rest)"
proof (cases arg)
  case Omitted
  obtain a b c d where m: "merge_loop defaultIsEqual ours theirs [] [] = (a, b, c, d)"
    using prod_cases4 by blast
  from calculatePatch_shape[OF _ m, of arg] Omitted assms that[OF _ m] show ?thesis by simp
next
  case (IsFunction g)
  obtain a b c d where m: "merge_loop g ours theirs [] [] = (a, b, c, d)"
    using prod_cases4 by blast
  from calculatePatch_shape[OF _ m, of arg] IsFunction assms that[OF _ m] show ?thesis by simp
next
  case NotFunction
  with assms show ?thesis by (simp add: calculatePatch_def)
qed

section \<open>Claims on the patch calculator\<close>

text \<open>
  Claim C2. Let \<open>ours\<close> and \<open>theirs\<close> be strictly ascending by path, and let
  \<open>calculatePatch\<close> return the list \<open>out\<close>. If the command at position \<open>j\<close> removes a
  directory (\<open>rmdir\<close>), and the command at position \<open>i\<close> is a removal (\<open>rmdir\<close> or
  \<open>unlink\<close>) whose path has the directory's path as a proper prefix, then \<open>i < j\<close>:
  the removal of the descendant stands before the removal of the directory. Every
  \<open>rmdir\<close> command lies in the reversed removals buffer, so this covers every directory
  of the removal segment. For the entries \<open>a/\<close>, \<open>a/b/\<close>, \<open>a/b/c.js\<close> against the
  empty sequence the output is the unlink of \<open>a/b/c.js\<close>, the rmdir of \<open>a/b/\<close>, the
  rmdir of \<open>a/\<close>, in this order; a command carries the path of its entry.
\<close>

theorem directory_removed_after_descendants:
  "(\<forall>ours theirs arg out i j.
      sorted_wrt (<) (map relativePath ours) \<and> sorted_wrt (<) (map relativePath theirs) \<and>
      calculatePatch ours theirs arg = Inr out \<and> i < length out \<and> j < length out \<and>
      cmd_op (out ! j) = ''rmdir'' \<and>
      (cmd_op (out ! i) = ''rmdir'' \<or> cmd_op (out ! i) = ''unlink'') \<and>
      strict_prefix (cmd_path (out ! j)) (cmd_path (out ! i))
      \<longrightarrow> i < j) \<and>
   calculatePatch
     [Entry ''a/'' s1 m1 c1, Entry ''a/b/'' s2 m2 c2, Entry ''a/b/c.js'' s3 m3 c3] [] Omitted =
     Inr [(''unlink'', ''a/b/c.js'', Entry ''a/b/c.js'' s3 m3 c3),
          (''rmdir'', ''a/b/'', Entry ''a/b/'' s2 m2 c2),
          (''rmdir'', ''a/'', Entry ''a/'' s1 m1 c1)]"
proof (intro conjI allI impI)
  fix ours theirs arg out i j
  assume H: "sorted_wrt (<) (map relativePath ours) \<and> sorted_wrt (<) (map relativePath theirs) \<and>
      calculatePatch ours theirs arg = Inr out \<and> i < length out \<and> j < length out \<and>
      cmd_op (out ! j) = ''rmdir'' \<and>
      (cmd_op (out ! i) = ''rmdir'' \<or> cmd_op (out ! i) = ''unlink'') \<and>
      strict_prefix (cmd_path (out ! j)) (cmd_path (out ! i))"
  then have cp: "calculatePatch ours theirs arg = Inr out" by simp
  from cp obtain f ours_rest theirs_rest operations removals where
    m: "merge_loop f ours theirs [] [] = (ours_rest, theirs_rest, operations, removals)" and
    out: "out = (operations @ map addCommand theirs_rest) @ rev (removals @ map removeCommand ours_rest)"
    by (rule calculatePatch_Inr)
  have "sorted_wrt (<) (map cmd_path removals @ map relativePath ours_rest)"
    using merge_loop_removals_sorted[OF _ m] H by simp
  then have R: "sorted_wrt (<) (map cmd_path (removals @ map removeCommand ours_rest))"
    by (simp add: comp_def cmd_path_def removeCommand_def)
  have O: "\<forall>c\<in>set (operations @ map addCommand theirs_rest). cmd_op c \<noteq> ''rmdir''"
    using merge_loop_no_rmdir[OF m] by (auto simp: cmd_op_def addCommand_def split: if_splits)
  from rmdir_after[OF R O] H show "i < j" unfolding out by blast
next
  show "calculatePatch
     [Entry ''a/'' s1 m1 c1, Entry ''a/b/'' s2 m2 c2, Entry ''a/b/c.js'' s3 m3 c3] [] Omitted =
     Inr [(''unlink'', ''a/b/c.js'', Entry ''a/b/c.js'' s3 m3 c3),
          (''rmdir'', ''a/b/'', Entry ''a/b/'' s2 m2 c2),
          (''rmdir'', ''a/'', Entry ''a/'' s1 m1 c1)]"
    by (simp add: calculatePatch_def removeCommand_def isDirectory_def Entry_def DIRECTORY_MODE_def)
qed

text \<open>
  The theorem at the scenario: the unlink of \<open>a/b/c.js\<close> at position 0 and the rmdir
  of its ancestor \<open>a/\<close> at position 2.
\<close>

theorem directory_removed_after_descendants_witness:
  "sorted_wrt (<) (map relativePath [Entry ''a/'' (Number 0) (Number 0) None, Entry ''a/b/'' (Number 0) (Number 0) None, Entry ''a/b/c.js'' (Number 0) (Number 0) None]) \<and>
   sorted_wrt (<) (map relativePath ([] :: entry list)) \<and>
   calculatePatch [Entry ''a/'' (Number 0) (Number 0) None, Entry ''a/b/'' (Number 0) (Number 0) None, Entry ''a/b/c.js'' (Number 0) (Number 0) None] [] Omitted =
     Inr [(''unlink'', ''a/b/c.js'', Entry ''a/b/c.js'' (Number 0) (Number 0) None),
          (''rmdir'', ''a/b/'', Entry ''a/b/'' (Number 0) (Number 0) None),
          (''rmdir'', ''a/'', Entry ''a/'' (Number 0) (Number 0) None)] \<and>
   cmd_op ((''rmdir'', ''a/'', Entry ''a/'' (Number 0) (Number 0) None)) = ''rmdir'' \<and>
   cmd_op ((''unlink'', ''a/b/c.js'', Entry ''a/b/c.js'' (Number 0) (Number 0) None)) = ''unlink'' \<and>
   strict_prefix ''a/'' ''a/b/c.js'' \<and> (0::nat) < 2"
proof -
  let ?ours = "[Entry ''a/'' (Number 0) (Number 0) None, Entry ''a/b/'' (Number 0) (Number 0) None, Entry ''a/b/c.js'' (Number 0) (Number 0) None]"
  let ?out = "[(''unlink'', ''a/b/c.js'', Entry ''a/b/c.js'' (Number 0) (Number 0) None),
          (''rmdir'', ''a/b/'', Entry ''a/b/'' (Number 0) (Number 0) None),
          (''rmdir'', ''a/'', Entry ''a/'' (Number 0) (Number 0) None)]"
  have s: "sorted_wrt (<) (map relativePath ?ours)" by (simp add: Entry_def)
  have c: "calculatePatch ?ours [] Omitted = Inr ?out"
    using directory_removed_after_descendants[of "Number 0" "Number 0" None "Number 0" "Number 0" None "Number 0" "Number 0" None] by blast
  have p: "strict_prefix ''a/'' ''a/b/c.js''" by (simp add: strict_prefix_def)
  have "(0::nat) < 2"
    using directory_removed_after_descendants[of "Number 0" "Number 0" None "Number 0" "Number 0" None "Number 0" "Number 0" None,
        THEN conjunct1, rule_format, of ?ours "[]" Omitted ?out 0 2] s c p
    by (simp add: cmd_op_def cmd_path_def)
  with s c p show ?thesis by (simp add: cmd_op_def)
qed

text \<open>
  Claim C3 says that the drain of \<open>ours\<close> appends the removal of a leftover file to
  the operations. For the file \<open>a.js\<close> and the directory \<open>b/\<close> against the empty
  sequence, the drain so worded gives the unlink before the rmdir; the source pushes both
  removals onto the removals buffer and gives the rmdir before the unlink.
\<close>

theorem cleanup_ours_defers_files_counterexample:
  "calculatePatch [Entry ''a.js'' (Number 0) (Number 0) None, Entry ''b/'' (Number 0) (Number 0) None] [] Omitted =
     Inr [(''rmdir'', ''b/'', Entry ''b/'' (Number 0) (Number 0) None), (''unlink'', ''a.js'', Entry ''a.js'' (Number 0) (Number 0) None)] \<and>
   spec_calculatePatch [Entry ''a.js'' (Number 0) (Number 0) None, Entry ''b/'' (Number 0) (Number 0) None] [] Omitted =
     Inr [(''unlink'', ''a.js'', Entry ''a.js'' (Number 0) (Number 0) None), (''rmdir'', ''b/'', Entry ''b/'' (Number 0) (Number 0) None)] \<and>
   calculatePatch [Entry ''a.js'' (Number 0) (Number 0) None, Entry ''b/'' (Number 0) (Number 0) None] [] Omitted \<noteq>
   spec_calculatePatch [Entry ''a.js'' (Number 0) (Number 0) None, Entry ''b/'' (Number 0) (Number 0) None] [] Omitted"
  by (simp add: calculatePatch_def spec_calculatePatch_def removeCommand_def isDirectory_def
      Entry_def DIRECTORY_MODE_def)

text \<open>
  Claim C3, amended. When the second argument is no obstacle and the main loop ends with
  the leftovers \<open>ours_rest\<close> and \<open>theirs_rest\<close>, the operations and the removals: one of
  the leftovers is empty; every leftover entry of \<open>ours\<close>, directory or file, becomes a
  removal pushed onto the removals buffer; every leftover entry of \<open>theirs\<close> becomes an
  add appended to the operations; and the result is the operations followed by the
  removals buffer reversed.
\<close>

theorem calculatePatch_drain:
  assumes "arg = IsFunction f \<or> arg = Omitted \<and> f = defaultIsEqual"
      and "merge_loop f ours theirs [] [] = (ours_rest, theirs_rest, operations, removals)"
  shows "(ours_rest = [] \<or> theirs_rest = []) \<and>
         cleanup_ours ours_rest removals = removals @ map removeCommand ours_rest \<and>
         cleanup_theirs theirs_rest operations = operations @ map addCommand theirs_rest \<and>
         calculatePatch ours theirs arg =
           Inr ((operations @ map addCommand theirs_rest) @
                rev (removals @ map removeCommand ours_rest))"
  using assms merge_loop_exhausted[OF assms(2)]
  by (simp add: calculatePatch_shape cleanup_ours_eq cleanup_theirs_eq)

text \<open>The amended claim at the input of the counterexample.\<close>

theorem calculatePatch_drain_witness:
  "merge_loop defaultIsEqual [Entry ''a.js'' (Number 0) (Number 0) None, Entry ''b/'' (Number 0) (Number 0) None] [] [] [] =
     ([Entry ''a.js'' (Number 0) (Number 0) None, Entry ''b/'' (Number 0) (Number 0) None], [], [], []) \<and>
   cleanup_ours [Entry ''a.js'' (Number 0) (Number 0) None, Entry ''b/'' (Number 0) (Number 0) None] [] =
     [removeCommand (Entry ''a.js'' (Number 0) (Number 0) None), removeCommand (Entry ''b/'' (Number 0) (Number 0) None)] \<and>
   calculatePatch [Entry ''a.js'' (Number 0) (Number 0) None, Entry ''b/'' (Number 0) (Number 0) None] [] Omitted =
     Inr [removeCommand (Entry ''b/'' (Number 0) (Number 0) None), removeCommand (Entry ''a.js'' (Number 0) (Number 0) None)]"
proof -
  have m: "merge_loop defaultIsEqual [Entry ''a.js'' (Number 0) (Number 0) None, Entry ''b/'' (Number 0) (Number 0) None] [] [] [] =
     ([Entry ''a.js'' (Number 0) (Number 0) None, Entry ''b/'' (Number 0) (Number 0) None], [], [], [])" by simp
  have a: "Omitted = IsFunction defaultIsEqual \<or> Omitted = Omitted \<and> defaultIsEqual = defaultIsEqual"
    by simp
  from calculatePatch_drain[OF a m] m show ?thesis by simp
qed

text \<open>
  Claim C7 says that \<open>calculatePatch(A, A)\<close> with the default equality is empty for
  every sorted, duplicate-free \<open>A\<close>. The entry \<^verbatim>\<open>new Entry('a.js', 0)\<close> has no mtime;
  the coercion of \<^verbatim>\<open>undefined\<close> is \<^verbatim>\<open>NaN\<close>, which is not equal to itself, so the
  default equality is false of the entry and itself and the patch of the one-entry
  sequence against itself holds a \<open>change\<close>.
\<close>

theorem calculatePatch_same_counterexample:
  "sorted_wrt (<) (map relativePath [Entry ''a.js'' (Number 0) Undefined None]) \<and>
   \<not> defaultIsEqual (Entry ''a.js'' (Number 0) Undefined None)
                    (Entry ''a.js'' (Number 0) Undefined None) \<and>
   calculatePatch [Entry ''a.js'' (Number 0) Undefined None]
                  [Entry ''a.js'' (Number 0) Undefined None] Omitted =
     Inr [(''change'', ''a.js'', Entry ''a.js'' (Number 0) Undefined None)] \<and>
   calculatePatch [Entry ''a.js'' (Number 0) Undefined None]
                  [Entry ''a.js'' (Number 0) Undefined None] Omitted \<noteq> Inr []"
  by (simp add: calculatePatch_def defaultIsEqual_def isDirectory_def Entry_def updateCommand_def
      strict_eq_def to_number_def)

text \<open>
  Claim C7, amended. For every sequence \<open>A\<close> in which each entry that is not a
  directory has a size that is not \<^verbatim>\<open>NaN\<close> and an mtime whose numeric coercion is not
  \<^verbatim>\<open>NaN\<close>, \<open>calculatePatch(A, A)\<close> with the default equality, omitted or passed, is
  the empty list of operations (\<open>A\<close> sorted and duplicate-free or not).
\<close>

theorem calculatePatch_same_is_empty:
  assumes "\<forall>e\<in>set A. isDirectory e \<or> size_bytes e \<noteq> NaN \<and> to_number (mtime e) \<noteq> NaN"
  shows "calculatePatch A A Omitted = Inr [] \<and>
         calculatePatch A A (IsFunction defaultIsEqual) = Inr []"
proof -
  from assms have "\<forall>e\<in>set A. defaultIsEqual e e"
    by (simp add: defaultIsEqual_self)
  then show ?thesis
    by (simp add: calculatePatch_def merge_loop_same)
qed

text \<open>
  The theorem at a sorted sequence of a directory without size and mtime and a file with
  both.
\<close>

theorem calculatePatch_same_is_empty_witness:
  "sorted_wrt (<) (map relativePath
     [Entry ''a/'' Undefined Undefined None, Entry ''a/file.js'' (Number 10) (Number 0) None]) \<and>
   isDirectory (Entry ''a/'' Undefined Undefined None) \<and>
   size_bytes (Entry ''a/file.js'' (Number 10) (Number 0) None) \<noteq> NaN \<and>
   to_number (mtime (Entry ''a/file.js'' (Number 10) (Number 0) None)) \<noteq> NaN \<and>
   calculatePatch
     [Entry ''a/'' Undefined Undefined None, Entry ''a/file.js'' (Number 10) (Number 0) None]
     [Entry ''a/'' Undefined Undefined None, Entry ''a/file.js'' (Number 10) (Number 0) None]
     Omitted = Inr []"
proof -
  let ?A = "[Entry ''a/'' Undefined Undefined None, Entry ''a/file.js'' (Number 10) (Number 0) None]"
  have d: "isDirectory (Entry ''a/'' Undefined Undefined None)"
    by (simp add: isDirectory_def Entry_def DIRECTORY_MODE_def)
  have f: "size_bytes (Entry ''a/file.js'' (Number 10) (Number 0) None) \<noteq> NaN \<and>
           to_number (mtime (Entry ''a/file.js'' (Number 10) (Number 0) None)) \<noteq> NaN"
    by (simp add: Entry_def to_number_def)
  have h: "\<forall>e\<in>set ?A. isDirectory e \<or> size_bytes e \<noteq> NaN \<and> to_number (mtime e) \<noteq> NaN"
    using d f by simp
  have s: "sorted_wrt (<) (map relativePath ?A)" by (simp add: Entry_def)
  from calculatePatch_same_is_empty[OF h] d f s show ?thesis by simp
qed

text \<open>
  Claim C8. \<open>defaultIsEqual\<close> is true of two directories whatever their size, mtime
  and mode; of two files it is true exactly when the sizes, the numeric coercions of the
  mtimes and the modes match under \<^verbatim>\<open>===\<close>, which for sizes and mtimes that are
  numbers is the equality of the numbers; the checksums make no difference to it. And under the default predicate, when a directory
  of \<open>ours\<close> and a directory of \<open>theirs\<close> have the same path (the paths of each
  sequence being distinct), no \<open>change\<close> command for that path is in the output.
\<close>

theorem defaultIsEqual_directories_and_files:
  "(isDirectory a \<and> isDirectory b \<longrightarrow> defaultIsEqual a b) \<and>
   (isFile a \<and> isFile b \<longrightarrow>
      defaultIsEqual a b =
        (strict_eq (size_bytes a) (size_bytes b) \<and>
         strict_eq (to_number (mtime a)) (to_number (mtime b)) \<and> mode a = mode b)) \<and>
   (isFile a \<and> isFile b \<and> size_bytes a = Number sa \<and> size_bytes b = Number sb \<and>
    mtime a = Number ma \<and> mtime b = Number mb \<longrightarrow>
      defaultIsEqual a b = (sa = sb \<and> ma = mb \<and> mode a = mode b)) \<and>
   defaultIsEqual (a\<lparr>checksum := ca\<rparr>) (b\<lparr>checksum := cb\<rparr>) = defaultIsEqual a b \<and>
   (calculatePatch ours theirs Omitted = Inr out \<and>
    distinct (map relativePath ours) \<and> distinct (map relativePath theirs) \<and>
    x \<in> set ours \<and> y \<in> set theirs \<and> relativePath x = relativePath y \<and>
    isDirectory x \<and> isDirectory y
    \<longrightarrow> (\<forall>c \<in> set out. \<not> (cmd_op c = ''change'' \<and> cmd_path c = relativePath y)))"
proof (intro conjI impI ballI)
  show "defaultIsEqual a b" if "isDirectory a \<and> isDirectory b"
    using that by (simp add: defaultIsEqual_def)
  show "defaultIsEqual a b =
        (strict_eq (size_bytes a) (size_bytes b) \<and>
         strict_eq (to_number (mtime a)) (to_number (mtime b)) \<and> mode a = mode b)"
    if "isFile a \<and> isFile b"
    using that by (simp add: defaultIsEqual_def isFile_def)
  show "defaultIsEqual a b = (sa = sb \<and> ma = mb \<and> mode a = mode b)"
    if "isFile a \<and> isFile b \<and> size_bytes a = Number sa \<and> size_bytes b = Number sb \<and>
        mtime a = Number ma \<and> mtime b = Number mb"
    using that by (simp add: defaultIsEqual_def isFile_def strict_eq_def to_number_def)
  show "defaultIsEqual (a\<lparr>checksum := ca\<rparr>) (b\<lparr>checksum := cb\<rparr>) = defaultIsEqual a b"
    by (simp add: defaultIsEqual_def isDirectory_def)
next
  fix c
  assume H: "calculatePatch ours theirs Omitted = Inr out \<and>
    distinct (map relativePath ours) \<and> distinct (map relativePath theirs) \<and>
    x \<in> set ours \<and> y \<in> set theirs \<and> relativePath x = relativePath y \<and>
    isDirectory x \<and> isDirectory y" and c: "c \<in> set out"
  show "\<not> (cmd_op c = ''change'' \<and> cmd_path c = relativePath y)"
  proof
    assume ch: "cmd_op c = ''change'' \<and> cmd_path c = relativePath y"
    from H obtain f ours_rest theirs_rest operations removals where
      f: "IsFunction f = Omitted \<or> Omitted = Omitted \<and> f = defaultIsEqual" and
      m: "merge_loop f ours theirs [] [] = (ours_rest, theirs_rest, operations, removals)" and
      out: "out = (operations @ map addCommand theirs_rest) @ rev (removals @ map removeCommand ours_rest)"
      using calculatePatch_Inr[of ours theirs Omitted out] by metis
    from f have f: "f = defaultIsEqual" by simp
    from c ch have "c \<in> set operations \<union> set removals"
      unfolding out by auto
    from merge_loop_change[OF m this] ch obtain x' y' where
      xy: "x' \<in> set ours" "y' \<in> set theirs" "relativePath x' = relativePath y'"
          "\<not> defaultIsEqual x' y'" "c = updateCommand y'"
      unfolding f by auto
    from xy(5) ch have "relativePath y' = relativePath y"
      by (simp add: cmd_path_def updateCommand_def)
    with H xy(2) have "y' = y"
      by (metis distinct_map inj_on_def)
    moreover from xy(3) \<open>relativePath y' = relativePath y\<close> H xy(1) have "x' = x"
      by (metis distinct_map inj_on_def)
    ultimately show False using xy(4) H by (simp add: defaultIsEqual_def)
  qed
qed

text \<open>
  The theorem at two directories that differ in size, mtime and mode, and at two files at
  one path that differ in size: the directories are equal, the files are not, and the
  patch holds the one \<open>change\<close> command of the file.
\<close>

theorem defaultIsEqual_directories_and_files_witness:
  "isDirectory \<lparr>relativePath = ''a/'', mode = 16877, size_bytes = Number 1, mtime = Number 2, checksum = None\<rparr> \<and>
   isDirectory \<lparr>relativePath = ''a/'', mode = 16384, size_bytes = Number 3, mtime = Number 4, checksum = None\<rparr> \<and>
   defaultIsEqual
     \<lparr>relativePath = ''a/'', mode = 16877, size_bytes = Number 1, mtime = Number 2, checksum = None\<rparr>
     \<lparr>relativePath = ''a/'', mode = 16384, size_bytes = Number 3, mtime = Number 4, checksum = None\<rparr> \<and>
   isFile (Entry ''a/f'' (Number 10) (Number 0) None) \<and> isFile (Entry ''a/f'' (Number 20) (Number 0) (Some ''c'')) \<and>
   \<not> defaultIsEqual (Entry ''a/f'' (Number 10) (Number 0) None) (Entry ''a/f'' (Number 20) (Number 0) (Some ''c'')) \<and>
   defaultIsEqual (Entry ''a/f'' (Number 10) (Number 0) None) (Entry ''a/f'' (Number 10) (Number 0) (Some ''c'')) \<and>
   calculatePatch
     [\<lparr>relativePath = ''a/'', mode = 16877, size_bytes = Number 1, mtime = Number 2, checksum = None\<rparr>,
      Entry ''a/f'' (Number 10) (Number 0) None]
     [\<lparr>relativePath = ''a/'', mode = 16384, size_bytes = Number 3, mtime = Number 4, checksum = None\<rparr>,
      Entry ''a/f'' (Number 20) (Number 0) (Some ''c'')] Omitted =
     Inr [(''change'', ''a/f'', Entry ''a/f'' (Number 20) (Number 0) (Some ''c''))] \<and>
   cmd_path (''change'', ''a/f'', Entry ''a/f'' (Number 20) (Number 0) (Some ''c'')) \<noteq> ''a/''"
proof -
  let ?d1 = "\<lparr>relativePath = ''a/'', mode = 16877, size_bytes = Number 1, mtime = Number 2, checksum = None\<rparr>"
  let ?d2 = "\<lparr>relativePath = ''a/'', mode = 16384, size_bytes = Number 3, mtime = Number 4, checksum = None\<rparr>"
  let ?f1 = "Entry ''a/f'' (Number 10) (Number 0) None"
  let ?f2 = "Entry ''a/f'' (Number 20) (Number 0) (Some ''c'')"
  let ?out = "[(''change'', ''a/f'', ?f2)]"
  have d: "isDirectory ?d1 \<and> isDirectory ?d2" by (simp add: isDirectory_def)
  have f: "isFile ?f1 \<and> isFile ?f2" by (simp add: isFile_def isDirectory_def Entry_def)
  have cp: "calculatePatch [?d1, ?f1] [?d2, ?f2] Omitted = Inr ?out"
    by (simp add: calculatePatch_def defaultIsEqual_def isDirectory_def Entry_def updateCommand_def
        strict_eq_def to_number_def)
  have dist: "distinct (map relativePath [?d1, ?f1]) \<and> distinct (map relativePath [?d2, ?f2])"
    by (simp add: Entry_def)
  note inst = defaultIsEqual_directories_and_files[where a = ?d1 and b = ?d2
      and ours = "[?d1, ?f1]" and theirs = "[?d2, ?f2]" and out = ?out and x = ?d1 and y = ?d2]
  note instf = defaultIsEqual_directories_and_files[where a = ?f1 and b = ?f2
      and sa = 10 and sb = 20 and ma = 0 and mb = 0]
  have 1: "defaultIsEqual ?d1 ?d2" using inst d by blast
  have 2: "\<not> defaultIsEqual ?f1 ?f2"
    using instf[THEN conjunct2, THEN conjunct2, THEN conjunct1] f by (simp add: Entry_def)
  have 3: "defaultIsEqual ?f1 (Entry ''a/f'' (Number 10) (Number 0) (Some ''c''))"
    using defaultIsEqual_directories_and_files[where a = ?f1 and b = ?f1
      and ca = None and cb = "Some ''c''" and sa = 10 and sb = 10 and ma = 0 and mb = 0,
      THEN conjunct2, THEN conjunct2] f
    by (simp add: Entry_def)
  have 4: "cmd_path (''change'', ''a/f'', ?f2) \<noteq> ''a/''"
    using inst d cp dist by (simp add: cmd_op_def)
  from d f cp 1 2 3 4 show ?thesis by simp
qed

text \<open>
  Claim C10. With a second argument that is passed and is not a function,
  \<open>calculatePatch\<close> throws the type error, whatever the two sequences are: the sequences
  are not read.
\<close>

theorem calculatePatch_not_callable:
  "calculatePatch ours theirs NotFunction =
     Inl (TypeError (''calculatePatch'' @ [CHR 0x27] @ ''s second argument must be a function''))"
  by (simp add: calculatePatch_def)

section \<open>Lemmas on the container\<close>

lemma find_from_absent:
  "path \<notin> set (map (\<lambda>r. relativePath (h ! r)) es) \<Longrightarrow>
   find_from h es path i = \<lparr>entry = None, index = - 1\<rparr>"
  by (induction es arbitrary: i) auto

lemma find_from_found:
  "entry (find_from h es path i0) = Some r \<Longrightarrow>
   i0 \<le> index (find_from h es path i0) \<and>
   nat (index (find_from h es path i0) - i0) < length es \<and>
   es ! nat (index (find_from h es path i0) - i0) = r \<and>
   relativePath (h ! r) = path"
proof (induction es arbitrary: i0)
  case Nil
  then show ?case by simp
next
  case (Cons e es)
  show ?case
  proof (cases "relativePath (h ! e) = path")
    case True
    with Cons.prems show ?thesis by simp
  next
    case False
    with Cons.prems have "entry (find_from h es path (i0 + 1)) = Some r" by simp
    from Cons.IH[OF this]
    have le: "i0 + 1 \<le> index (find_from h es path (i0 + 1))"
      and lt: "nat (index (find_from h es path (i0 + 1)) - (i0 + 1)) < length es"
      and nth: "es ! nat (index (find_from h es path (i0 + 1)) - (i0 + 1)) = r"
      and rp: "relativePath (h ! r) = path"
      by simp_all
    from le have suc: "nat (index (find_from h es path (i0 + 1)) - i0) =
        Suc (nat (index (find_from h es path (i0 + 1)) - (i0 + 1)))"
      by simp
    from False le lt nth rp show ?thesis
      by (simp add: suc)
  qed
qed

lemma find_from_present:
  "path \<in> set (map (\<lambda>r. relativePath (h ! r)) es) \<Longrightarrow>
   \<exists>r. entry (find_from h es path i) = Some r"
  by (induction es arbitrary: i) auto

lemma findByRelativePath_absent:
  "path \<notin> set (entry_paths w) \<Longrightarrow> findByRelativePath w path = \<lparr>entry = None, index = - 1\<rparr>"
  by (simp add: findByRelativePath_def entry_paths_def find_from_absent)

lemma findByRelativePath_found:
  assumes "entry (findByRelativePath w path) = Some r"
  shows "0 \<le> index (findByRelativePath w path)"
    and "nat (index (findByRelativePath w path)) < length (entries (tree w))"
    and "entries (tree w) ! nat (index (findByRelativePath w path)) = r"
    and "relativePath (heap w ! r) = path"
  using find_from_found[of "heap w" "entries (tree w)" path 0 r] assms
  by (simp_all add: findByRelativePath_def)

lemma track_frame:
  "track operation e w = Inr w' \<Longrightarrow>
   entries (tree w') = entries (tree w) \<and> heap w' = heap w \<and> io w' = io w \<and>
   root (tree w') = root (tree w) \<and> state (tree w') = state (tree w)"
  by (cases e) (auto simp: Let_def split: option.splits if_splits)

lemma insertAt_found:
  assumes "entry (findByRelativePath w path) = Some r"
      and "entries (tree w') = entries (tree w)"
  shows "insertAt (findByRelativePath w path) r w' = w'"
proof -
  from findByRelativePath_found[OF assms(1)] assms(2)
  have "(entries (tree w'))[nat (index (findByRelativePath w path)) := r] = entries (tree w')"
    and "index (findByRelativePath w path) > - 1"
    by (simp_all add: list_update_same_conv)
  then show ?thesis by (simp add: insertAt_def Let_def)
qed

lemma findByRelativePath_io [simp]:
  "findByRelativePath (w\<lparr>io := t\<rparr>) path = findByRelativePath w path"
  by (simp add: findByRelativePath_def)

lemma look_track_write_entries:
  assumes "entry (findByRelativePath w path) = Some r"
  shows "entries (tree (snd (case fs_call env c w of
             (Inl msg, w1) \<Rightarrow> (Some (FsError msg), w1)
           | (Inr v, w1) \<Rightarrow>
               (case track operation (entry (findByRelativePath w path)) w1 of
                  Inl err \<Rightarrow> (Some err, w1)
                | Inr w2 \<Rightarrow> (None, insertAt (findByRelativePath w path) (the (entry (findByRelativePath w path))) w2))))) = entries (tree w)
      \<and> heap (snd (case fs_call env c w of
             (Inl msg, w1) \<Rightarrow> (Some (FsError msg), w1)
           | (Inr v, w1) \<Rightarrow>
               (case track operation (entry (findByRelativePath w path)) w1 of
                  Inl err \<Rightarrow> (Some err, w1)
                | Inr w2 \<Rightarrow> (None, insertAt (findByRelativePath w path) (the (entry (findByRelativePath w path))) w2)))) = heap w"
proof (cases "fs env (io w) c")
  case (Inl msg)
  then show ?thesis by (simp add: fs_call_def)
next
  case (Inr v)
  show ?thesis
  proof (cases "track operation (Some r) (w\<lparr>io := io w @ [c]\<rparr>)")
    case (Inl err)
    with Inr assms show ?thesis by (simp add: fs_call_def)
  next
    case tr: (Inr w2)
    from track_frame[OF tr] have fr: "entries (tree w2) = entries (tree w)" "heap w2 = heap w"
      by simp_all
    from insertAt_found[OF assms fr(1)] Inr tr assms fr show ?thesis
      by (simp add: fs_call_def)
  qed
qed

section \<open>Claims on the container\<close>

text \<open>
  Claim C1 fails on the source. \<^verbatim>\<open>_insertAt\<close> stops at the first entry whose path is
  equal to or \<^emph>\<open>smaller\<close> than the new path and inserts before it. The container of
  \<^verbatim>\<open>FSTree.fromPaths(['a'])\<close> is started and strictly ascending; after
  \<^verbatim>\<open>writeFileSync('b', 'x')\<close>, which returns, its paths are \<open>b\<close>, \<open>a\<close>, which is
  not ascending.
\<close>

theorem writeFileSync_breaks_order:
  "state (tree tree_a) = STARTED \<and>
   sorted_wrt (<) (entry_paths tree_a) \<and>
   fst (writeFileSync (env_ok '''') ''b'' ''x'' tree_a) = None \<and>
   entry_paths (snd (writeFileSync (env_ok '''') ''b'' ''x'' tree_a)) = [''b'', ''a''] \<and>
   \<not> sorted_wrt (<) (entry_paths (snd (writeFileSync (env_ok '''') ''b'' ''x'' tree_a)))"
  by (simp add: writeFileSync_def write_through_def env_ok_def tree_a_def entry_paths_def
      throwIfStopped_def findByRelativePath_def Entry_def fs_call_def new_Entry_def insertAt_def
      full_path_def Let_def)

text \<open>
  Claim C4 says that \<open>mkdirSync\<close> of a path that no entry has throws a type error. On
  the file system that refuses to make a directory twice, the first \<open>mkdirSync\<close> of
  \<open>d/\<close> throws the type error after the directory was made and leaves the path absent;
  the second \<open>mkdirSync\<close> of the same, still absent path throws the error of the
  \<^verbatim>\<open>fs\<close> call, not a type error.
\<close>

theorem mkdirSync_fs_error_counterexample:
  "mkdirSync env_eexist ''d/'' tree_a =
     (Some (TypeErrorNullish ''relativePath''), tree_a\<lparr>io := [Fs_mkdirSync ''r/d/'']\<rparr>) \<and>
   state (tree (tree_a\<lparr>io := [Fs_mkdirSync ''r/d/'']\<rparr>)) = STARTED \<and>
   ''d/'' \<notin> set (entry_paths (tree_a\<lparr>io := [Fs_mkdirSync ''r/d/'']\<rparr>)) \<and>
   mkdirSync env_eexist ''d/'' (tree_a\<lparr>io := [Fs_mkdirSync ''r/d/'']\<rparr>) =
     (Some (FsError ''EEXIST''),
      tree_a\<lparr>io := [Fs_mkdirSync ''r/d/'', Fs_mkdirSync ''r/d/'']\<rparr>) \<and>
   fst (mkdirSync env_eexist ''d/'' (tree_a\<lparr>io := [Fs_mkdirSync ''r/d/'']\<rparr>)) \<noteq>
     Some (TypeErrorNullish ''relativePath'')"
  by (simp add: mkdirSync_def throwIfStopped_def findByRelativePath_def fs_call_def full_path_def
      env_eexist_def tree_a_def entry_paths_def Entry_def)

text \<open>
  Claim C4, amended. In a started container, for a path that no entry has, \<open>mkdirSync\<close>
  issues the \<^verbatim>\<open>fs\<close> call that creates the directory and throws: when the call returns,
  the type error of reading \<open>relativePath\<close> of \<^verbatim>\<open>null\<close>, raised while recording the
  change; when the call throws, the error of the call. Either way the state it leaves is
  the state before with the \<^verbatim>\<open>fs.mkdirSync\<close> call added to the trace: the entries, the
  change records, the position map and the store are unchanged.
\<close>

theorem mkdirSync_absent_path_throws:
  assumes "state (tree w) = STARTED"
      and "path \<notin> set (entry_paths w)"
  shows "(fs env (io w) (Fs_mkdirSync (full_path w path)) = Inr v \<longrightarrow>
            mkdirSync env path w =
              (Some (TypeErrorNullish ''relativePath''),
               w\<lparr>io := io w @ [Fs_mkdirSync (full_path w path)]\<rparr>)) \<and>
         (fs env (io w) (Fs_mkdirSync (full_path w path)) = Inl msg \<longrightarrow>
            mkdirSync env path w =
              (Some (FsError msg),
               w\<lparr>io := io w @ [Fs_mkdirSync (full_path w path)]\<rparr>))"
  using assms
  by (simp add: mkdirSync_def throwIfStopped_def findByRelativePath_absent fs_call_def)

text \<open>
  The theorem at the container with the one file \<open>a\<close> and the path \<open>d/\<close>: on a file
  system whose calls return, and at the second call on the file system that refuses to
  make a directory twice.
\<close>

theorem mkdirSync_absent_path_throws_witness:
  "state (tree tree_a) = STARTED \<and> ''d/'' \<notin> set (entry_paths tree_a) \<and>
   mkdirSync (env_ok []) ''d/'' tree_a =
     (Some (TypeErrorNullish ''relativePath''), tree_a\<lparr>io := [Fs_mkdirSync ''r/d/'']\<rparr>) \<and>
   entries (tree (snd (mkdirSync (env_ok []) ''d/'' tree_a))) = [0] \<and>
   changes (tree (snd (mkdirSync (env_ok []) ''d/'' tree_a))) = [] \<and>
   state (tree (tree_a\<lparr>io := [Fs_mkdirSync ''r/d/'']\<rparr>)) = STARTED \<and>
   ''d/'' \<notin> set (entry_paths (tree_a\<lparr>io := [Fs_mkdirSync ''r/d/'']\<rparr>)) \<and>
   mkdirSync env_eexist ''d/'' (tree_a\<lparr>io := [Fs_mkdirSync ''r/d/'']\<rparr>) =
     (Some (FsError ''EEXIST''),
      tree_a\<lparr>io := [Fs_mkdirSync ''r/d/'', Fs_mkdirSync ''r/d/'']\<rparr>)"
proof -
  let ?w1 = "tree_a\<lparr>io := [Fs_mkdirSync ''r/d/'']\<rparr>"
  have s: "state (tree tree_a) = STARTED" by (simp add: tree_a_def)
  have a: "''d/'' \<notin> set (entry_paths tree_a)" by (simp add: tree_a_def entry_paths_def Entry_def)
  have f: "fs (env_ok []) (io tree_a) (Fs_mkdirSync (full_path tree_a ''d/'')) = Inr []"
    by (simp add: env_ok_def)
  have r: "mkdirSync (env_ok []) ''d/'' tree_a =
     (Some (TypeErrorNullish ''relativePath''), tree_a\<lparr>io := [Fs_mkdirSync ''r/d/'']\<rparr>)"
    using mkdirSync_absent_path_throws[OF s a, where env = "env_ok []" and v = "[]",
        THEN conjunct1] f
    by (simp add: tree_a_def full_path_def)
  have s1: "state (tree ?w1) = STARTED" by (simp add: tree_a_def)
  have a1: "''d/'' \<notin> set (entry_paths ?w1)" by (simp add: tree_a_def entry_paths_def Entry_def)
  have f1: "fs env_eexist (io ?w1) (Fs_mkdirSync (full_path ?w1 ''d/'')) = Inl ''EEXIST''"
    by (simp add: env_eexist_def full_path_def tree_a_def)
  have t: "mkdirSync env_eexist ''d/'' ?w1 =
     (Some (FsError ''EEXIST''), tree_a\<lparr>io := [Fs_mkdirSync ''r/d/'', Fs_mkdirSync ''r/d/'']\<rparr>)"
    using mkdirSync_absent_path_throws[OF s1 a1, where env = env_eexist and msg = "''EEXIST''",
        THEN conjunct2] f1
    by (simp add: tree_a_def full_path_def)
  have e: "entries (tree tree_a) = [0] \<and> changes (tree tree_a) = []"
    by (simp add: tree_a_def)
  from s a r s1 a1 t e show ?thesis by simp
qed

text \<open>
  Claim C5. For a path that an entry of the container has, \<open>unlinkSync\<close> and
  \<open>rmdirSync\<close> leave the array of entries as it was, whether they return or throw: its
  length is unchanged and an entry with the path is still in it.
\<close>

theorem unlinkSync_rmdirSync_keep_entry:
  assumes "path \<in> set (entry_paths w)"
  shows "entries (tree (snd (unlinkSync env path w))) = entries (tree w) \<and>
         length (entries (tree (snd (unlinkSync env path w)))) = length (entries (tree w)) \<and>
         path \<in> set (entry_paths (snd (unlinkSync env path w))) \<and>
         entries (tree (snd (rmdirSync env path w))) = entries (tree w) \<and>
         length (entries (tree (snd (rmdirSync env path w)))) = length (entries (tree w)) \<and>
         path \<in> set (entry_paths (snd (rmdirSync env path w)))"
proof -
  from assms obtain r where r: "entry (findByRelativePath w path) = Some r"
    using find_from_present[of path "heap w" "entries (tree w)" 0]
    by (auto simp: entry_paths_def findByRelativePath_def)
  have u: "entries (tree (snd (unlinkSync env path w))) = entries (tree w) \<and>
           heap (snd (unlinkSync env path w)) = heap w"
    using look_track_write_entries[OF r, where env = env and c = "Fs_unlinkSync (full_path w path)"
        and operation = "''unlink''"]
    by (simp add: unlinkSync_def Let_def split: option.splits)
  have d: "entries (tree (snd (rmdirSync env path w))) = entries (tree w) \<and>
           heap (snd (rmdirSync env path w)) = heap w"
    using look_track_write_entries[OF r, where env = env and c = "Fs_rmdirSync (full_path w path)"
        and operation = "''rmdir''"]
    by (simp add: rmdirSync_def Let_def split: option.splits)
  from u d assms show ?thesis by (simp add: entry_paths_def)
qed

text \<open>The theorem at the container with the one file \<open>a\<close>.\<close>

theorem unlinkSync_rmdirSync_keep_entry_witness:
  "''a'' \<in> set (entry_paths tree_a) \<and>
   entries (tree (snd (unlinkSync (env_ok '''') ''a'' tree_a))) = [0] \<and>
   ''a'' \<in> set (entry_paths (snd (unlinkSync (env_ok '''') ''a'' tree_a))) \<and>
   entries (tree (snd (rmdirSync (env_ok '''') ''a'' tree_a))) = [0] \<and>
   ''a'' \<in> set (entry_paths (snd (rmdirSync (env_ok '''') ''a'' tree_a)))"
proof -
  have a: "''a'' \<in> set (entry_paths tree_a)" by (simp add: tree_a_def entry_paths_def Entry_def)
  have e: "entries (tree tree_a) = [0]" by (simp add: tree_a_def)
  from unlinkSync_rmdirSync_keep_entry[OF a, of "env_ok ''''"] a e show ?thesis by simp
qed

text \<open>
  Claim C6. In a started container, let \<open>statSync\<close> find the entry instance \<open>r\<close> at
  the path. If the instance has a checksum and it is the digest of the content,
  \<open>writeFileSync\<close> returns and leaves the state as it was: no \<^verbatim>\<open>fs\<close> call, no change
  record, no new instance. If the instance has no checksum, the file is read; when the
  read returns data whose digest is the digest of the content, \<open>writeFileSync\<close> returns
  and leaves the state as it was but for the read in the trace and the checksum of the
  instance \<open>r\<close>, now the digest of the data read: no write, no change record, no new
  instance, and the array of entries holds the same references.
\<close>

theorem writeFileSync_same_digest_is_noop:
  assumes "state (tree w) = STARTED"
      and "statSync w path = Some r"
      and "r < length (heap w)"
  shows "(\<not> falsy (checksum (heap w ! r)) \<and> checksum (heap w ! r) = Some (md5hex env content)
            \<longrightarrow> writeFileSync env path content w = (None, w)) \<and>
         (falsy (checksum (heap w ! r)) \<and>
          fs env (io w) (Fs_readFileSync (full_path w path) ''UTF8'') = Inr data \<and>
          md5hex env data = md5hex env content
            \<longrightarrow> writeFileSync env path content w =
                  (None, w\<lparr>heap := (heap w)[r := (heap w ! r)\<lparr>checksum := Some (md5hex env data)\<rparr>],
                           io := io w @ [Fs_readFileSync (full_path w path) ''UTF8'']\<rparr>))"
proof (intro conjI impI)
  assume same: "\<not> falsy (checksum (heap w ! r)) \<and> checksum (heap w ! r) = Some (md5hex env content)"
  from same have nf: "\<not> falsy (checksum (heap w ! r))"
    by (rule conjunct1)
  from same have eq: "checksum (heap w ! r) = Some (md5hex env content)"
    by (rule conjunct2)
  from assms nf show "writeFileSync env path content w = (None, w)"
    by (simp add: writeFileSync_def throwIfStopped_def statSync_def Let_def eq[symmetric])
next
  assume H: "falsy (checksum (heap w ! r)) \<and>
          fs env (io w) (Fs_readFileSync (full_path w path) ''UTF8'') = Inr data \<and>
          md5hex env data = md5hex env content"
  then have rd: "fs_call env (Fs_readFileSync (full_path w path) ''UTF8'') w =
      (Inr data, w\<lparr>io := io w @ [Fs_readFileSync (full_path w path) ''UTF8'']\<rparr>)"
    by (simp add: fs_call_def)
  from assms H show "writeFileSync env path content w =
                  (None, w\<lparr>heap := (heap w)[r := (heap w ! r)\<lparr>checksum := Some (md5hex env data)\<rparr>],
                           io := io w @ [Fs_readFileSync (full_path w path) ''UTF8'']\<rparr>)"
    by (simp add: writeFileSync_def throwIfStopped_def statSync_def rd Let_def)
qed

text \<open>
  The theorem at the container with the file \<open>a\<close>, once with the checksum of the content
  and once without a checksum on a file system whose read returns the content.
\<close>

theorem writeFileSync_same_digest_is_noop_witness:
  "state (tree tree_a_sum) = STARTED \<and> statSync tree_a_sum ''a'' = Some 0 \<and>
   writeFileSync (env_ok '''') ''a'' ''x'' tree_a_sum = (None, tree_a_sum) \<and>
   state (tree tree_a) = STARTED \<and> statSync tree_a ''a'' = Some 0 \<and>
   falsy (checksum (heap tree_a ! 0)) \<and>
   writeFileSync (env_ok ''x'') ''a'' ''x'' tree_a =
     (None, tree_a\<lparr>heap := [Entry ''a'' (Number 0) (Number 0) (Some ''x'')], io := [Fs_readFileSync ''r/a'' ''UTF8'']\<rparr>)"
proof -
  have s1: "state (tree tree_a_sum) = STARTED" by (simp add: tree_a_sum_def tree_a_def)
  have f1: "statSync tree_a_sum ''a'' = Some 0"
    by (simp add: statSync_def findByRelativePath_def tree_a_sum_def tree_a_def Entry_def)
  have l1: "0 < length (heap tree_a_sum)" by (simp add: tree_a_sum_def)
  have c1: "\<not> falsy (checksum (heap tree_a_sum ! 0)) \<and>
            checksum (heap tree_a_sum ! 0) = Some (md5hex (env_ok '''') ''x'')"
    by (simp add: tree_a_sum_def Entry_def falsy_def env_ok_def)
  have w1: "writeFileSync (env_ok '''') ''a'' ''x'' tree_a_sum = (None, tree_a_sum)"
    using writeFileSync_same_digest_is_noop[OF s1 f1 l1, of "env_ok ''''" "''x''"] c1 by blast
  have s2: "state (tree tree_a) = STARTED" by (simp add: tree_a_def)
  have f2: "statSync tree_a ''a'' = Some 0"
    by (simp add: statSync_def findByRelativePath_def tree_a_def Entry_def)
  have l2: "0 < length (heap tree_a)" by (simp add: tree_a_def)
  have c2: "falsy (checksum (heap tree_a ! 0)) \<and>
            fs (env_ok ''x'') (io tree_a) (Fs_readFileSync (full_path tree_a ''a'') ''UTF8'') = Inr ''x'' \<and>
            md5hex (env_ok ''x'') ''x'' = md5hex (env_ok ''x'') ''x''"
    by (simp add: tree_a_def Entry_def falsy_def env_ok_def)
  have w2: "writeFileSync (env_ok ''x'') ''a'' ''x'' tree_a =
     (None, tree_a\<lparr>heap := (heap tree_a)[0 := (heap tree_a ! 0)\<lparr>checksum := Some (md5hex (env_ok ''x'') ''x'')\<rparr>],
                    io := io tree_a @ [Fs_readFileSync (full_path tree_a ''a'') ''UTF8'']\<rparr>)"
    using writeFileSync_same_digest_is_noop[OF s2 f2 l2, of "env_ok ''x''" "''x''" "''x''"] c2 by blast
  have w2': "writeFileSync (env_ok ''x'') ''a'' ''x'' tree_a =
     (None, tree_a\<lparr>heap := [Entry ''a'' (Number 0) (Number 0) (Some ''x'')], io := [Fs_readFileSync ''r/a'' ''UTF8'']\<rparr>)"
    unfolding w2 by (simp add: tree_a_def Entry_def env_ok_def full_path_def)
  from s1 f1 w1 s2 f2 c2 w2' show ?thesis by simp
qed

text \<open>
  Claim C9. In a stopped container each of the four mutating operations throws the error
  whose message names the operation, and leaves the state as it was: the container, the
  store and the trace of \<^verbatim>\<open>fs\<close> calls.
\<close>

theorem stopped_container_rejects_mutation:
  assumes "state (tree w) = STOPPED"
  shows "writeFileSync env path content w = (Some (Error ''NOPE, operation: writeFile''), w) \<and>
         unlinkSync env path w = (Some (Error ''NOPE, operation: unlink''), w) \<and>
         mkdirSync env path w = (Some (Error ''NOPE, operation: mkdir''), w) \<and>
         rmdirSync env path w = (Some (Error ''NOPE, operation: rmdir''), w)"
  using assms
  by (simp add: writeFileSync_def unlinkSync_def mkdirSync_def rmdirSync_def throwIfStopped_def)

text \<open>The theorem at the container with the file \<open>a\<close>, stopped.\<close>

theorem stopped_container_rejects_mutation_witness:
  "state (tree (tree_a\<lparr>tree := stop (tree tree_a)\<rparr>)) = STOPPED \<and>
   writeFileSync (env_ok '''') ''b'' ''x'' (tree_a\<lparr>tree := stop (tree tree_a)\<rparr>) =
     (Some (Error ''NOPE, operation: writeFile''), tree_a\<lparr>tree := stop (tree tree_a)\<rparr>) \<and>
   unlinkSync (env_ok '''') ''a'' (tree_a\<lparr>tree := stop (tree tree_a)\<rparr>) =
     (Some (Error ''NOPE, operation: unlink''), tree_a\<lparr>tree := stop (tree tree_a)\<rparr>) \<and>
   mkdirSync (env_ok '''') ''d/'' (tree_a\<lparr>tree := stop (tree tree_a)\<rparr>) =
     (Some (Error ''NOPE, operation: mkdir''), tree_a\<lparr>tree := stop (tree tree_a)\<rparr>) \<and>
   rmdirSync (env_ok '''') ''d/'' (tree_a\<lparr>tree := stop (tree tree_a)\<rparr>) =
     (Some (Error ''NOPE, operation: rmdir''), tree_a\<lparr>tree := stop (tree tree_a)\<rparr>)"
proof -
  have s: "state (tree (tree_a\<lparr>tree := stop (tree tree_a)\<rparr>)) = STOPPED"
    by (simp add: stop_def)
  from stopped_container_rejects_mutation[OF s, of "env_ok ''''" "''b''" "''x''"]
       stopped_container_rejects_mutation[OF s, of "env_ok ''''" "''a''" "''x''"]
       stopped_container_rejects_mutation[OF s, of "env_ok ''''" "''d/''" "''x''"] s
  show ?thesis by simp
qed

end
